theory Spec2Isabelle
  imports Complex_Main "HOL-Library.Word"
begin

section \<open>The adaptive load driver of loader.go\<close>

text \<open>
  The three-phase controller of \<^verbatim>\<open>loader.go\<close> (burst, calibrate, load) as state-passing
  functions. Conventions of the embedding:
  \<^item> \<^verbatim>\<open>float64\<close> and \<^verbatim>\<open>rate.Limit\<close> values are real numbers (rounding is not modelled);
    \<^verbatim>\<open>uint64\<close> counters are 64-bit words; Go's \<^verbatim>\<open>int\<close> and \<^verbatim>\<open>time.Duration\<close>
    (nanoseconds) are integers.
  \<^item> The package-level variables (\<^verbatim>\<open>multiplier\<close>, \<^verbatim>\<open>await\<close>, \<^verbatim>\<open>errors\<close>,
    \<^verbatim>\<open>throttle\<close>, \<^verbatim>\<open>stopCh\<close>, \<^verbatim>\<open>r\<close>) and the \<^verbatim>\<open>cfg\<close> that \<^verbatim>\<open>run\<close> shares
    with its goroutines by pointer are the fields of one state record.
  \<^item> The metrics registry and the worker pool live in another package. What they return
    when read is an input (a snapshot per timer event); what the controller asks of them
    (\<^verbatim>\<open>RunWorkers\<close>, \<^verbatim>\<open>Flush\<close>, a send on \<^verbatim>\<open>Jobsch\<close>) is appended to a list of calls,
    as are \<^verbatim>\<open>throttle.SetLimit\<close> and the lines printed.
  \<^item> Timers and the scheduler are an input too: a phase consumes a list of events, each a
    timer firing (handled by the phase's goroutine) or one pass of the driver through its
    \<^verbatim>\<open>default\<close> branch. A phase that has not returned when the events run out yields
    \<open>Inl StillRunning\<close>.
\<close>

subsection \<open>Values of the Go runtime\<close>

type_synonym u64 = "64 word"

text \<open>\<^verbatim>\<open>time.Duration\<close> counts nanoseconds.\<close>

definition Millisecond :: int where
  "Millisecond = 1000000"

definition Second :: int where
  "Second = 1000 * Millisecond"

text \<open>\<^verbatim>\<open>d.Seconds()\<close>\<close>

definition Seconds :: "int \<Rightarrow> real" where
  "Seconds d = real_of_int d / 1000000000"

definition calibrateDuration :: int where
  "calibrateDuration = 5 * Second"

definition adjustmentDuration :: int where
  "adjustmentDuration = 10 * Second"


text \<open>
  The conversion of a \<^verbatim>\<open>float64\<close> to an integer type (\<^verbatim>\<open>int(x)\<close>, \<^verbatim>\<open>time.Duration(x)\<close>)
  drops the fraction, towards zero. Values outside the target type are not modelled.
\<close>

definition goInt :: "real \<Rightarrow> int" where
  "goInt x = (if x < 0 then - \<lfloor>- x\<rfloor> else \<lfloor>x\<rfloor>)"

text \<open>\<^verbatim>\<open>uint64(x)\<close> of a \<^verbatim>\<open>float64\<close>.\<close>

definition goUint64 :: "real \<Rightarrow> u64" where
  "goUint64 x = word_of_int (goInt x)"

text \<open>Go's \<^verbatim>\<open>/\<close> on \<^verbatim>\<open>int\<close> truncates towards zero.\<close>

definition quo :: "int \<Rightarrow> int \<Rightarrow> int" where
  "quo a b = sgn a * sgn b * (\<bar>a\<bar> div \<bar>b\<bar>)"

subsection \<open>The data\<close>

text \<open>
  One reading of the collaborators: the counters of package \<^verbatim>\<open>metrics\<close> and the worker
  pool's \<^verbatim>\<open>client.Amount()\<close> and \<^verbatim>\<open>client.Overflow()\<close>. A function that reads a
  counter several times while handling one event reads the same snapshot each time.
\<close>

record snapshot =
  metrics_ConnOpen :: u64
  metrics_Errors :: u64
  metrics_Timeouts :: u64
  metrics_RequestSum :: u64
  metrics_RequestSuccess :: u64
  metrics_BytesWritten :: u64
  metrics_BytesRead :: u64
  metrics_RequestDuration :: "(real \<times> real) list"
  client_Amount :: int
  client_Overflow :: int

text \<open>\<^verbatim>\<open>report.Page\<close>: the series the sampler appends to, and the embedded mutex.\<close>

record Page =
  Title :: string
  Interval :: real
  RequestDuration :: "(real \<times> real list) list"
  Connections :: "u64 list"
  Errors :: "u64 list"
  Timeouts :: "u64 list"
  RequestSum :: "u64 list"
  RequestSuccess :: "u64 list"
  BytesWritten :: "u64 list"
  BytesRead :: "u64 list"
  Qps :: "u64 list"
  locked :: bool

record loadConfig =
  qps :: real
  c :: int

text \<open>The CLI flags \<^verbatim>\<open>*q\<close>, \<^verbatim>\<open>*c\<close> and \<^verbatim>\<open>*d\<close>, declared outside \<^verbatim>\<open>loader.go\<close>.\<close>

record flags =
  flag_q :: real
  flag_c :: int
  flag_d :: int

datatype call =
    RunWorkers int
  | Flush
  | Job
  | SetLimit real
  | Println string
  | PrintlnError string
  | PrintSummary string
  | WriteReport

record state =
  multiplier :: real
  await :: int
  errors :: u64
  throttle :: real
  stopCh :: bool
  cfg :: loadConfig
  steps :: int
  page :: Page
  calls :: "call list"

datatype failure = IntegerDivideByZero | FileCreateFailed | StillRunning

text \<open>
  The events of a phase that runs \<^verbatim>\<open>load()\<close> beside a goroutine: the deadline, a sample
  tick, a step tick (load phase only), or the driver finding \<^verbatim>\<open>stopCh\<close> empty and taking
  its \<^verbatim>\<open>default\<close> branch, where \<^verbatim>\<open>throttle.Wait\<close> returns \<^verbatim>\<open>nil\<close> or an error.
\<close>

datatype event =
    Timeout snapshot
  | Tick snapshot
  | StepTick
  | Wait "string option"

text \<open>The events of the burst loop: its deadline, or one pass through \<^verbatim>\<open>default\<close>.\<close>

datatype burst_event = BurstTimeout snapshot | BurstDefault

subsection \<open>The package-level variables at program start\<close>

definition emptyPage :: Page where
  "emptyPage = \<lparr>Title = [], Interval = 0, RequestDuration = [], Connections = [], Errors = [],
     Timeouts = [], RequestSum = [], RequestSuccess = [], BytesWritten = [], BytesRead = [],
     Qps = [], locked = False\<rparr>"

definition start :: state where
  "start = \<lparr>multiplier = 0.1, await = 0, errors = 0, throttle = 1, stopCh = False,
     cfg = \<lparr>qps = 0, c = 0\<rparr>, steps = 0, page = emptyPage, calls = []\<rparr>"

subsection \<open>Calls on the collaborators\<close>

definition emit :: "call \<Rightarrow> state \<Rightarrow> state" where
  "emit x s = s\<lparr>calls := calls s @ [x]\<rparr>"

text \<open>\<^verbatim>\<open>throttle.SetLimit(x)\<close>; \<^verbatim>\<open>throttle.Limit()\<close> is the field \<open>throttle\<close>.\<close>

definition setLimit :: "real \<Rightarrow> state \<Rightarrow> state" where
  "setLimit x s = emit (SetLimit x) (s\<lparr>throttle := x\<rparr>)"

text \<open>\<^verbatim>\<open>stopCh <- struct{}{}\<close>: the send is pending until the driver receives it.\<close>

definition sendStop :: "state \<Rightarrow> state" where
  "sendStop s = s\<lparr>stopCh := True\<rparr>"

subsection \<open>printState\<close>

text \<open>
  Modelled from the spec: \<^verbatim>\<open>Page.UpdateRequestDuration\<close> of package \<^verbatim>\<open>report\<close> is
  not in \<^verbatim>\<open>loader.go\<close>. The spec has the sampler "fold the latency histogram delta into
  the report histogram", a map from bucket to list of durations: each observed
  (bucket, duration) is appended to its bucket's list. It touches no series.
\<close>

fun addDuration :: "real \<times> real \<Rightarrow> (real \<times> real list) list \<Rightarrow> (real \<times> real list) list" where
  "addDuration (b, v) [] = [(b, [v])]"
| "addDuration (b, v) ((k, vs) # h) =
     (if k = b then (k, vs @ [v]) # h else (k, vs) # addDuration (b, v) h)"

definition UpdateRequestDuration :: "(real \<times> real) list \<Rightarrow> Page \<Rightarrow> Page" where
  "UpdateRequestDuration d p = p\<lparr>RequestDuration := foldl (\<lambda>h x. addDuration x h) (RequestDuration p) d\<rparr>"

definition Lock :: "Page \<Rightarrow> Page" where
  "Lock p = p\<lparr>locked := True\<rparr>"

definition Unlock :: "Page \<Rightarrow> Page" where
  "Unlock p = p\<lparr>locked := False\<rparr>"

text \<open>The \<^verbatim>\<open>*debug\<close> output is not modelled.\<close>

definition printState :: "snapshot \<Rightarrow> state \<Rightarrow> state" where
  "printState m s =
     (let p0 = Lock (page s);
          p1 = p0\<lparr>Connections := Connections p0 @ [metrics_ConnOpen m]\<rparr>;
          p2 = p1\<lparr>Errors := Errors p1 @ [metrics_Errors m]\<rparr>;
          p3 = p2\<lparr>Timeouts := Timeouts p2 @ [metrics_Timeouts m]\<rparr>;
          p4 = p3\<lparr>RequestSum := RequestSum p3 @ [metrics_RequestSum m]\<rparr>;
          p5 = p4\<lparr>RequestSuccess := RequestSuccess p4 @ [metrics_RequestSuccess m]\<rparr>;
          p6 = p5\<lparr>BytesWritten := BytesWritten p5 @ [metrics_BytesWritten m]\<rparr>;
          p7 = p6\<lparr>BytesRead := BytesRead p6 @ [metrics_BytesRead m]\<rparr>;
          p8 = p7\<lparr>Qps := Qps p7 @ [goUint64 (throttle s)]\<rparr>;
          p9 = UpdateRequestDuration (metrics_RequestDuration m) p8
      in s\<lparr>page := Unlock p9\<rparr>)"

subsection \<open>isFlawed and calibrate\<close>

definition isFlawed :: "snapshot \<Rightarrow> state \<Rightarrow> bool \<times> state" where
  "isFlawed m s =
     (if metrics_Errors m > 0 \<and> errors s \<noteq> metrics_Errors m
      then (True, s\<lparr>errors := metrics_Errors m\<rparr>)
      else (False, s))"

definition calibrate :: "snapshot \<Rightarrow> state \<Rightarrow> state" where
  "calibrate m s =
     (if \<bar>multiplier s\<bar> < 0.0001
      then sendStop (emit (Println ''Multiplier is negligible now. Stoping calibrate'') s)
      else if await s > 0 then s\<lparr>await := await s - 1\<rparr>
      else (case isFlawed m s of
              (False, s1) \<Rightarrow>
                 if client_Overflow m > 0
                 then (let n = goInt (real_of_int (client_Amount m) * multiplier s1);
                           s2 = emit (RunWorkers n) s1
                       in s2\<lparr>await := await s2 + 1\<rparr>)
                 else (let s2 = setLimit (throttle s1 * (1 + multiplier s1)) s1
                       in s2\<lparr>await := await s2 + 1\<rparr>)
            | (True, s1) \<Rightarrow> s1\<lparr>multiplier := multiplier s1 / 1.2, await := await s1 + 3\<rparr>))"

subsection \<open>The driver loop\<close>

text \<open>
  One pass of \<^verbatim>\<open>load()\<close> through its \<^verbatim>\<open>default\<close> branch: \<open>err\<close> is what
  \<^verbatim>\<open>throttle.Wait(ctx)\<close> returned.
\<close>

definition driveOnce :: "string option \<Rightarrow> state \<Rightarrow> state" where
  "driveOnce err s =
     (let s1 = (case err of Some e \<Rightarrow> emit (PrintlnError e) s | None \<Rightarrow> s)
      in emit Job s1)"

text \<open>
  \<^verbatim>\<open>load()\<close>. Its \<^verbatim>\<open>select\<close> takes the \<^verbatim>\<open>stopCh\<close> case when a send is pending and
  the \<^verbatim>\<open>default\<close> case otherwise. \<open>watch\<close> is the handler of the goroutine the caller
  started before calling \<^verbatim>\<open>load()\<close>: it runs on the timer events that arrive between
  two passes of the driver.
\<close>

fun load :: "(event \<Rightarrow> state \<Rightarrow> state) \<Rightarrow> event list \<Rightarrow> state \<Rightarrow> failure + state" where
  "load watch [] s =
     (if stopCh s then Inr (emit Flush (s\<lparr>stopCh := False\<rparr>)) else Inl StillRunning)"
| "load watch (e # es) s =
     (if stopCh s then Inr (emit Flush (s\<lparr>stopCh := False\<rparr>))
      else (case e of
              Wait err \<Rightarrow> load watch es (driveOnce err s)
            | _ \<Rightarrow> load watch es (watch e s)))"

subsection \<open>Burst phase\<close>

text \<open>
  The \<^verbatim>\<open>timeout\<close> case of \<^verbatim>\<open>burstThroughput\<close>. The quotient
  \<^verbatim>\<open>metrics.Errors()/metrics.RequestSum()\<close> is a \<^verbatim>\<open>uint64\<close> division: Go panics when
  the divisor is zero.
\<close>

definition burstDeadline :: "snapshot \<Rightarrow> state \<Rightarrow> failure + state" where
  "burstDeadline m s =
     (let cfg1 = (cfg s)\<lparr>qps := real (unat (metrics_RequestSum m)) / Seconds calibrateDuration\<rparr>;
          cfg2 = cfg1\<lparr>c := client_Amount m\<rparr>
      in if metrics_RequestSum m = 0 then Inl IntegerDivideByZero
         else (let cfg3 = (if (metrics_Errors m div metrics_RequestSum m) * 100 > 2
                           then cfg2\<lparr>qps := qps cfg2 / 2, c := quo (c cfg2) 2\<rparr>
                           else cfg2)
               in Inr (emit Flush (emit (PrintSummary ''Burst Throughput'') (s\<lparr>cfg := cfg3\<rparr>)))))"

fun burstLoop :: "burst_event list \<Rightarrow> state \<Rightarrow> failure + state" where
  "burstLoop [] s = Inl StillRunning"
| "burstLoop (BurstTimeout m # es) s = burstDeadline m s"
| "burstLoop (BurstDefault # es) s = burstLoop es (emit Job s)"

definition burstThroughput :: "flags \<Rightarrow> burst_event list \<Rightarrow> state \<Rightarrow> failure + state" where
  "burstThroughput fl es s = burstLoop es (emit (RunWorkers (flag_c fl)) s)"

subsection \<open>Calibrate phase\<close>

text \<open>
  The goroutine of \<^verbatim>\<open>calibrateThroughput\<close>. In its \<^verbatim>\<open>timeout\<close> case the send on
  \<^verbatim>\<open>stopCh\<close> comes first and the stores to \<^verbatim>\<open>cfg\<close> after it; the handler is taken
  as one step, so the stores are in place when the driver returns.
\<close>

definition calibrateWatch :: "event \<Rightarrow> state \<Rightarrow> state" where
  "calibrateWatch e s =
     (case e of
        Timeout m \<Rightarrow>
          (let s1 = sendStop s;
               s2 = s1\<lparr>cfg := (cfg s1)\<lparr>qps := throttle s1\<rparr>\<rparr>;
               s3 = s2\<lparr>cfg := (cfg s2)\<lparr>c := client_Amount m\<rparr>\<rparr>
           in emit (PrintSummary ''Adjustment test'') s3)
      | Tick m \<Rightarrow> calibrate m (printState m s)
      | _ \<Rightarrow> s)"


subsection \<open>Load phase\<close>

text \<open>
  \<^verbatim>\<open>s := time.Duration(d.Seconds() / 2 / 10)\<close> and the period
  \<^verbatim>\<open>time.Second * s\<close> handed to \<^verbatim>\<open>time.Tick\<close>.
\<close>

definition stepPeriod :: "int \<Rightarrow> int" where
  "stepPeriod d = Second * goInt (Seconds d / 2 / 10)"

text \<open>
  The goroutine of \<^verbatim>\<open>makeLoad\<close>. \<^verbatim>\<open>time.Tick\<close> returns a nil channel for a period that
  is not positive, and a nil channel is never ready: \<open>live\<close> says that \<^verbatim>\<open>stepTick\<close> is
  a channel that ticks.
\<close>

definition makeLoadWatch :: "bool \<Rightarrow> int \<Rightarrow> real \<Rightarrow> event \<Rightarrow> state \<Rightarrow> state" where
  "makeLoadWatch live workerStep qpsStep e s =
     (case e of
        Timeout m \<Rightarrow> emit (PrintSummary ''Loading test'') (sendStop s)
      | StepTick \<Rightarrow>
          if \<not> live then s
          else if steps s \<ge> 10 - 1 then s
          else (let s1 = setLimit (throttle s + qpsStep) s;
                    s2 = emit (RunWorkers workerStep) s1
                in s2\<lparr>steps := steps s2 + 1\<rparr>)
      | Tick m \<Rightarrow> printState m s
      | Wait err \<Rightarrow> s)"

definition makeLoad :: "flags \<Rightarrow> event list \<Rightarrow> state \<Rightarrow> failure + state" where
  "makeLoad fl es s =
     (let live = (0 < stepPeriod (flag_d fl));
          workerStep = quo (c (cfg s)) 10;
          qpsStep = qps (cfg s) / 10;
          s1 = setLimit qpsStep s;
          s2 = emit (RunWorkers workerStep) s1
      in load (makeLoadWatch live workerStep qpsStep) es (s2\<lparr>steps := 0\<rparr>))"

subsection \<open>run\<close>




section \<open>Notions used in the statements\<close>

text \<open>A reading after a burst in which half of 100 requests failed, with 10 workers.\<close>

definition halfErrors :: snapshot where
  "halfErrors = \<lparr>metrics_ConnOpen = 10, metrics_Errors = 50, metrics_Timeouts = 0,
     metrics_RequestSum = 100, metrics_RequestSuccess = 50, metrics_BytesWritten = 0,
     metrics_BytesRead = 0, metrics_RequestDuration = [], client_Amount = 10, client_Overflow = 0\<rparr>"



text \<open>
  Consecutive passes of the driver through its \<^verbatim>\<open>default\<close> branch, and what one pass
  asks of standard output and the pool.
\<close>

definition drive :: "string option list \<Rightarrow> state \<Rightarrow> state" where
  "drive rs s = foldl (\<lambda>s r. driveOnce r s) s rs"

fun driveCalls :: "string option \<Rightarrow> call list" where
  "driveCalls None = [Job]"
| "driveCalls (Some e) = [PrintlnError e, Job]"

text \<open>
  A tick is an evaluation tick when \<^verbatim>\<open>calibrate\<close> passes both of its early returns and
  reaches \<^verbatim>\<open>isFlawed\<close>.
\<close>

definition evaluates :: "state \<Rightarrow> bool" where
  "evaluates s = (\<not> \<bar>multiplier s\<bar> < 0.0001 \<and> \<not> await s > 0)"

text \<open>Readings without errors: one with three jobs queued before 25 workers, one with none.\<close>

definition backlog :: snapshot where
  "backlog = \<lparr>metrics_ConnOpen = 25, metrics_Errors = 0, metrics_Timeouts = 0,
     metrics_RequestSum = 400, metrics_RequestSuccess = 400, metrics_BytesWritten = 0,
     metrics_BytesRead = 0, metrics_RequestDuration = [], client_Amount = 25, client_Overflow = 3\<rparr>"

definition calm :: snapshot where
  "calm = backlog\<lparr>client_Overflow := 0\<rparr>"







text \<open>The state in which the burst phase has left \<open>qps = 100\<close> and \<open>c = 10\<close>.\<close>

definition afterBurst :: state where
  "afterBurst = start\<lparr>cfg := \<lparr>qps = 100, c = 10\<rparr>\<rparr>"


text \<open>Flags of a run with \<^verbatim>\<open>-d 10s\<close>.\<close>

definition shortLoad :: flags where
  "shortLoad = \<lparr>flag_q = 0, flag_c = 10, flag_d = 10 * Second\<rparr>"

text \<open>The lines a list of calls hands to \<^verbatim>\<open>fmt.Println\<close> as strings, in order.\<close>

fun printed :: "call list \<Rightarrow> string list" where
  "printed [] = []"
| "printed (Println x # cs) = x # printed cs"
| "printed (_ # cs) = printed cs"

text \<open>
  The calls made so far are \<open>pre\<close> followed by calls whose printed lines are one of \<open>L\<close>.
\<close>

definition says :: "string list set \<Rightarrow> call list \<Rightarrow> state \<Rightarrow> bool" where
  "says L pre u = (\<exists>xs. calls u = pre @ xs \<and> printed xs \<in> L)"

text \<open>The line \<^verbatim>\<open>calibrate\<close> prints when it halts the phase.\<close>

definition negligible :: string where
  "negligible = ''Multiplier is negligible now. Stoping calibrate''"


section \<open>Properties\<close>

subsection \<open>The burst deadline\<close>

lemma Seconds_calibrateDuration: "Seconds calibrateDuration = 5"
  by (simp add: Seconds_def calibrateDuration_def Second_def Millisecond_def)

lemma burstLoop_defaults:
  "burstLoop (replicate n BurstDefault @ BurstTimeout m # es) s = burstDeadline m ((emit Job ^^ n) s)"
  by (induction n arbitrary: s) (simp_all add: funpow_swap1)

text \<open>
  What the deadline stores when requests were counted and the errors do not exceed them:
  the halved estimate when every request failed, the estimate as computed otherwise.
\<close>

lemma burstDeadline_halves_iff:
  assumes "metrics_RequestSum m \<noteq> 0" and "metrics_Errors m \<le> metrics_RequestSum m"
  shows "map_sum id cfg (burstDeadline m s) =
     Inr (if metrics_Errors m = metrics_RequestSum m
          then \<lparr>qps = real (unat (metrics_RequestSum m)) / 5 / 2, c = quo (client_Amount m) 2\<rparr>
          else \<lparr>qps = real (unat (metrics_RequestSum m)) / 5, c = client_Amount m\<rparr>)"
proof (cases "metrics_Errors m = metrics_RequestSum m")
  case True
  then have "metrics_Errors m div metrics_RequestSum m = 1"
    using assms(1) by (simp add: div_word_self)
  then show ?thesis
    using assms(1) True
    by (simp add: burstDeadline_def Seconds_calibrateDuration emit_def Let_def)
next
  case False
  then have "metrics_Errors m < metrics_RequestSum m"
    using assms(2) by simp
  then have "metrics_Errors m div metrics_RequestSum m = 0"
    by (rule div_word_less)
  then show ?thesis
    using assms(1) False
    by (simp add: burstDeadline_def Seconds_calibrateDuration emit_def Let_def)
qed

text \<open>
  C10. The error-ratio check at the burst deadline divides by \<^verbatim>\<open>metrics.RequestSum()\<close>
  unguarded: a burst phase that reaches its deadline (after any number of submitted
  jobs) panics with an integer division by zero exactly when no request was counted, and
  returns an estimate exactly when the counter is positive.
\<close>

theorem burstThroughput_panics_iff:
  "(burstThroughput fl (replicate n BurstDefault @ BurstTimeout m # es) s = Inl IntegerDivideByZero)
     = (metrics_RequestSum m = 0)
   \<and> (\<exists>s'. burstThroughput fl (replicate n BurstDefault @ BurstTimeout m # es) s = Inr s')
     = (metrics_RequestSum m \<noteq> 0)"
  by (simp add: burstThroughput_def burstLoop_defaults burstDeadline_def Let_def)

text \<open>
  C2, at a failing input. With 50 errors in 100 requests (an error ratio of 0.5, far above
  0.02) and 10 workers, the deadline leaves \<open>qps = 100 / 5\<close> and \<open>c = 10\<close> as computed:
  the \<^verbatim>\<open>uint64\<close> quotient \<open>50 div 100\<close> is 0, so the test \<open>0 * 100 > 2\<close> fails.
\<close>

theorem burst_half_errors_not_halved:
  "map_sum id cfg (burstDeadline halfErrors start) = Inr \<lparr>qps = 20, c = 10\<rparr>"
  by (simp add: burstDeadline_def halfErrors_def start_def Seconds_calibrateDuration emit_def Let_def)

subsection \<open>The sampler\<close>









subsection \<open>The driver loop\<close>

lemma stopCh_driveOnce: "stopCh (driveOnce r s) = stopCh s"
  by (simp add: driveOnce_def emit_def Let_def split: option.split)

text \<open>
  What holds when \<^verbatim>\<open>load()\<close> returns: it returns from a state in which a stop is
  pending, reached by steps of the goroutine and of the driver taken while none was.
\<close>

lemma load_invariant:
  assumes "load watch es s = Inr s'" and "P s"
    and "\<And>e s. P s \<Longrightarrow> \<not> stopCh s \<Longrightarrow> P (watch e s)"
    and "\<And>r s. P s \<Longrightarrow> \<not> stopCh s \<Longrightarrow> P (driveOnce r s)"
  shows "\<exists>t. P t \<and> stopCh t \<and> s' = emit Flush (t\<lparr>stopCh := False\<rparr>)"
  using assms(1,2)
proof (induction es arbitrary: s)
  case Nil
  then show ?case by (auto split: if_splits)
next
  case (Cons e es)
  show ?case
  proof (cases "stopCh s")
    case True
    with Cons.prems show ?thesis by auto
  next
    case False
    show ?thesis
    proof (cases e)
      case (Wait r)
      with False Cons.prems have "load watch es (driveOnce r s) = Inr s'" by simp
      moreover have "P (driveOnce r s)" using assms(4) Cons.prems(2) False by blast
      ultimately show ?thesis by (rule Cons.IH)
    next
      case (Timeout m)
      with False Cons.prems have "load watch es (watch e s) = Inr s'" by simp
      moreover have "P (watch e s)" using assms(3) Cons.prems(2) False by blast
      ultimately show ?thesis by (rule Cons.IH)
    next
      case (Tick m)
      with False Cons.prems have "load watch es (watch e s) = Inr s'" by simp
      moreover have "P (watch e s)" using assms(3) Cons.prems(2) False by blast
      ultimately show ?thesis by (rule Cons.IH)
    next
      case StepTick
      with False Cons.prems have "load watch es (watch e s) = Inr s'" by simp
      moreover have "P (watch e s)" using assms(3) Cons.prems(2) False by blast
      ultimately show ?thesis by (rule Cons.IH)
    qed
  qed
qed

lemma calls_driveOnce: "calls (driveOnce r s) = calls s @ driveCalls r"
  by (cases r) (simp_all add: driveOnce_def emit_def)

lemma calls_drive: "calls (drive rs s) = calls s @ concat (map driveCalls rs)"
  unfolding drive_def by (induction rs arbitrary: s) (simp_all add: calls_driveOnce)

lemma stopCh_drive: "stopCh (drive rs s) = stopCh s"
  unfolding drive_def by (induction rs arbitrary: s) (simp_all add: stopCh_driveOnce)

lemma load_waits:
  "\<not> stopCh s \<Longrightarrow> load watch (map Wait rs @ es) s = load watch es (drive rs s)"
  unfolding drive_def
proof (induction rs arbitrary: s)
  case Nil
  show ?case by simp
next
  case (Cons r rs)
  then show ?case by (simp add: stopCh_driveOnce)
qed

text \<open>
  C7, as the code has it. While no stop is pending, a pass of the driver in which
  \<^verbatim>\<open>throttle.Wait\<close> returned an error prints the error and submits a job like any other
  pass; after any number of passes, with or without errors, the loop is still running,
  and it goes on with the events that follow.
\<close>

theorem load_continues_after_wait_error:
  assumes "\<not> stopCh s"
  shows "load watch (map Wait rs @ es) s = load watch es (drive rs s)
    \<and> calls (drive rs s) = calls s @ concat (map driveCalls rs)
    \<and> load watch (map Wait rs) s = Inl StillRunning
    \<and> calls (driveOnce (Some e) s) = calls s @ [PrintlnError e, Job]"
  using assms load_waits[of s watch rs es] load_waits[of s watch rs "[]"]
  by (simp add: calls_drive calls_driveOnce stopCh_drive)

theorem load_continues_after_wait_error_witness:
  "\<not> stopCh start
   \<and> load calibrateWatch (map Wait [Some ''context canceled'', None] @ [Timeout halfErrors]) start
       = load calibrateWatch [Timeout halfErrors] (drive [Some ''context canceled'', None] start)
   \<and> calls (drive [Some ''context canceled'', None] start) = [PrintlnError ''context canceled'', Job, Job]
   \<and> load calibrateWatch (map Wait [Some ''context canceled'', None]) start = Inl StillRunning"
proof -
  have h: "\<not> stopCh start" by (simp add: start_def)
  show ?thesis
    using h load_continues_after_wait_error[OF h, of calibrateWatch
        "[Some ''context canceled'', None]" "[Timeout halfErrors]" "''context canceled''"]
    by (simp add: start_def)
qed

text \<open>
  C7 as stated fails: after a wait that returned \<^verbatim>\<open>context canceled\<close> the loop has not
  returned, and when the deadline of the calibrate phase then stops it, the calls made
  are the printed error, a job, the summary and the flush.
\<close>

theorem load_wait_error_counterexample:
  "load calibrateWatch [Wait (Some ''context canceled'')] start = Inl StillRunning
   \<and> map_sum id calls (load calibrateWatch [Wait (Some ''context canceled''), Timeout halfErrors] start)
       = Inr [PrintlnError ''context canceled'', Job, PrintSummary ''Adjustment test'', Flush]"
  by (simp add: start_def driveOnce_def emit_def calibrateWatch_def sendStop_def Let_def)

subsection \<open>One tick of the calibrator\<close>

lemma goInt_nonneg: "0 \<le> x \<Longrightarrow> goInt x = \<lfloor>x\<rfloor>"
  by (simp add: goInt_def)

lemma isFlawed_fst:
  "fst (isFlawed m s) = (metrics_Errors m \<noteq> 0 \<and> errors s \<noteq> metrics_Errors m)"
  by (simp add: isFlawed_def word_greater_zero_iff)

lemma isFlawed_monotone:
  "errors s \<le> metrics_Errors m \<Longrightarrow> fst (isFlawed m s) = (errors s < metrics_Errors m)"
  by (auto simp: isFlawed_fst)

lemma isFlawed_snd:
  "snd (isFlawed m s) = (if fst (isFlawed m s) then s\<lparr>errors := metrics_Errors m\<rparr> else s)"
  by (simp add: isFlawed_def)

lemma calibrate_evaluation:
  assumes "evaluates s"
  shows "calibrate m s =
     (if fst (isFlawed m s)
      then s\<lparr>errors := metrics_Errors m, multiplier := multiplier s / 1.2, await := await s + 3\<rparr>
      else if client_Overflow m > 0
      then (emit (RunWorkers (goInt (real_of_int (client_Amount m) * multiplier s))) s)\<lparr>await := await s + 1\<rparr>
      else (setLimit (throttle s * (1 + multiplier s)) s)\<lparr>await := await s + 1\<rparr>)"
  using assms
  by (simp add: evaluates_def calibrate_def isFlawed_def emit_def setLimit_def Let_def)

lemma calibrate_countdown:
  "\<not> \<bar>multiplier s\<bar> < 0.0001 \<Longrightarrow> 0 < await s \<Longrightarrow> calibrate m s = s\<lparr>await := await s - 1\<rparr>"
  by (simp add: calibrate_def)

lemma calibrate_halt:
  "\<bar>multiplier s\<bar> < 0.0001 \<Longrightarrow>
   calibrate m s = sendStop (emit (Println ''Multiplier is negligible now. Stoping calibrate'') s)"
  by (simp add: calibrate_def)

lemma not_evaluates_calibrate:
  "\<not> evaluates s \<Longrightarrow> 1 < await s \<or> \<bar>multiplier s\<bar> < 0.0001 \<Longrightarrow> \<not> evaluates (calibrate m s)"
  by (auto simp: evaluates_def calibrate_def sendStop_def emit_def)

lemma await_calibrate_nonneg: "0 \<le> await s \<Longrightarrow> 0 \<le> await (calibrate m s)"
  by (simp add: calibrate_def isFlawed_def sendStop_def emit_def setLimit_def Let_def)

text \<open>
  C1. At an evaluation tick (\<open>await\<close> is 0 and the multiplier, positive, is not below
  \<open>0.0001\<close>), for an error counter that has not fallen below the stored count and a pool
  that reports a worker count that is not negative:
  \<^item> if the error count has not increased, exactly one escalation is made: with a backlog
    (\<open>Overflow > 0\<close>) the one call \<open>RunWorkers \<lfloor>Amount * multiplier\<rfloor>\<close>, otherwise the one
    call \<open>SetLimit (Limit * (1 + multiplier))\<close>; \<open>await\<close> becomes 1, the next tick only
    counts \<open>await\<close> down, and the tick after it evaluates again;
  \<^item> if the error count has increased, the multiplier is divided by 1.2, nothing is
    called, \<open>await\<close> becomes 3, and none of the next three ticks evaluates; unless the
    division made the multiplier negligible (then the next tick halts the phase), the
    three ticks only count \<open>await\<close> down and the fourth evaluates again.
  After an evaluation the stored count is the count just read, so "since the stored
  count" is "since the last evaluation".
\<close>

theorem calibrate_evaluation_tick:
  assumes ev: "evaluates s" and aw: "await s = 0" and pos: "0 < multiplier s"
    and mono: "errors s \<le> metrics_Errors m" and am: "0 \<le> client_Amount m"
  shows "calibrate m s =
     (if metrics_Errors m \<le> errors s
      then (if client_Overflow m > 0
            then (emit (RunWorkers \<lfloor>real_of_int (client_Amount m) * multiplier s\<rfloor>) s)\<lparr>await := 1\<rparr>
            else (setLimit (throttle s * (1 + multiplier s)) s)\<lparr>await := 1\<rparr>)
      else s\<lparr>errors := metrics_Errors m, multiplier := multiplier s / 1.2, await := 3\<rparr>)
   \<and> errors (calibrate m s) = metrics_Errors m
   \<and> (metrics_Errors m \<le> errors s \<longrightarrow>
        \<not> evaluates (calibrate m s)
        \<and> calibrate m1 (calibrate m s) = (calibrate m s)\<lparr>await := 0\<rparr>
        \<and> evaluates (calibrate m1 (calibrate m s)))
   \<and> (errors s < metrics_Errors m \<longrightarrow>
        \<not> evaluates (calibrate m s)
        \<and> \<not> evaluates (calibrate m1 (calibrate m s))
        \<and> \<not> evaluates (calibrate m2 (calibrate m1 (calibrate m s)))
        \<and> (\<not> \<bar>multiplier s / 1.2\<bar> < 0.0001 \<longrightarrow>
             calibrate m3 (calibrate m2 (calibrate m1 (calibrate m s))) = (calibrate m s)\<lparr>await := 0\<rparr>
             \<and> evaluates (calibrate m3 (calibrate m2 (calibrate m1 (calibrate m s))))))"
proof -
  have fl: "fst (isFlawed m s) = (errors s < metrics_Errors m)"
    using mono by (rule isFlawed_monotone)
  have le: "(metrics_Errors m \<le> errors s) = (\<not> errors s < metrics_Errors m)"
    by auto
  have fl_floor: "goInt (real_of_int (client_Amount m) * multiplier s)
      = \<lfloor>real_of_int (client_Amount m) * multiplier s\<rfloor>"
    using am pos by (intro goInt_nonneg mult_nonneg_nonneg) simp_all
  have step: "calibrate m s =
     (if metrics_Errors m \<le> errors s
      then (if client_Overflow m > 0
            then (emit (RunWorkers \<lfloor>real_of_int (client_Amount m) * multiplier s\<rfloor>) s)\<lparr>await := 1\<rparr>
            else (setLimit (throttle s * (1 + multiplier s)) s)\<lparr>await := 1\<rparr>)
      else s\<lparr>errors := metrics_Errors m, multiplier := multiplier s / 1.2, await := 3\<rparr>)"
    using calibrate_evaluation[OF ev, of m] by (simp add: fl le fl_floor aw)
  have nn: "\<not> \<bar>multiplier s\<bar> < 0.0001"
    using ev by (simp add: evaluates_def)
  have base: "errors (calibrate m s) = metrics_Errors m"
    using mono by (auto simp: step emit_def setLimit_def)
  have calm: "\<not> evaluates (calibrate m s)
        \<and> calibrate m1 (calibrate m s) = (calibrate m s)\<lparr>await := 0\<rparr>
        \<and> evaluates (calibrate m1 (calibrate m s))" if "metrics_Errors m \<le> errors s"
  proof -
    have a: "await (calibrate m s) = 1" and mu: "multiplier (calibrate m s) = multiplier s"
      using that by (simp_all add: step emit_def setLimit_def)
    have "calibrate m1 (calibrate m s) = (calibrate m s)\<lparr>await := await (calibrate m s) - 1\<rparr>"
      using nn by (intro calibrate_countdown) (simp_all add: a mu)
    then have c: "calibrate m1 (calibrate m s) = (calibrate m s)\<lparr>await := 0\<rparr>"
      by (simp add: a)
    have ev1: "evaluates ((calibrate m s)\<lparr>await := 0\<rparr>)"
      using ev by (simp add: evaluates_def mu)
    have ne: "\<not> evaluates (calibrate m s)"
      by (simp add: evaluates_def a)
    show ?thesis
      by (simp add: c ev1 ne)
  qed
  have retreat: "\<not> evaluates (calibrate m s)
        \<and> \<not> evaluates (calibrate m1 (calibrate m s))
        \<and> \<not> evaluates (calibrate m2 (calibrate m1 (calibrate m s)))
        \<and> (\<not> \<bar>multiplier s / 1.2\<bar> < 0.0001 \<longrightarrow>
             calibrate m3 (calibrate m2 (calibrate m1 (calibrate m s))) = (calibrate m s)\<lparr>await := 0\<rparr>
             \<and> evaluates (calibrate m3 (calibrate m2 (calibrate m1 (calibrate m s)))))"
    if "errors s < metrics_Errors m"
  proof -
    define s1 where "s1 = calibrate m s"
    have s1: "s1 = s\<lparr>errors := metrics_Errors m, multiplier := multiplier s / 1.2, await := 3\<rparr>"
      using that by (simp add: s1_def step le)
    have a: "await s1 = 3" and mu: "multiplier s1 = multiplier s / 1.2"
      by (simp_all add: s1)
    have e0: "\<not> evaluates s1" by (simp add: evaluates_def a)
    show ?thesis
    proof (cases "\<bar>multiplier s / 1.2\<bar> < 0.0001")
      case True
      then have n1: "\<bar>multiplier s1\<bar> < 0.0001" by (simp add: mu)
      have e1: "\<not> evaluates (calibrate m1 s1)"
        using n1 by (intro not_evaluates_calibrate[OF e0]) simp
      have n2: "\<bar>multiplier (calibrate m1 s1)\<bar> < 0.0001"
        using n1 by (simp add: calibrate_halt sendStop_def emit_def)
      have e2: "\<not> evaluates (calibrate m2 (calibrate m1 s1))"
        using n2 by (intro not_evaluates_calibrate[OF e1]) simp
      show ?thesis using True e0 e1 e2 by (simp add: s1_def)
    next
      case False
      then have n1: "\<not> \<bar>multiplier s1\<bar> < 0.0001" by (simp add: mu)
      have c1: "calibrate m1 s1 = s1\<lparr>await := 2\<rparr>"
        using calibrate_countdown[of s1 m1] n1 by (simp add: a)
      have c2: "calibrate m2 (s1\<lparr>await := 2\<rparr>) = s1\<lparr>await := 1\<rparr>"
        using calibrate_countdown[of "s1\<lparr>await := 2\<rparr>" m2] n1 by simp
      have c3: "calibrate m3 (s1\<lparr>await := 1\<rparr>) = s1\<lparr>await := 0\<rparr>"
        using calibrate_countdown[of "s1\<lparr>await := 1\<rparr>" m3] n1 by simp
      have e1: "\<not> evaluates (s1\<lparr>await := 2\<rparr>)" and e2: "\<not> evaluates (s1\<lparr>await := 1\<rparr>)"
        by (simp_all add: evaluates_def)
      have e3: "evaluates (s1\<lparr>await := 0\<rparr>)"
        using n1 by (simp add: evaluates_def)
      show ?thesis
        using e0 e1 e2 e3 by (simp add: s1_def[symmetric] c1 c2 c3)
    qed
  qed
  show ?thesis
    using step base calm retreat by blast
qed

theorem calibrate_evaluation_tick_witness:
  "evaluates start \<and> await start = 0 \<and> 0 < multiplier start
   \<and> errors start \<le> metrics_Errors backlog \<and> 0 \<le> client_Amount backlog
   \<and> errors start \<le> metrics_Errors calm \<and> 0 \<le> client_Amount calm
   \<and> errors start \<le> metrics_Errors halfErrors \<and> 0 \<le> client_Amount halfErrors
   \<and> calibrate backlog start = (emit (RunWorkers 2) start)\<lparr>await := 1\<rparr>
   \<and> calibrate calm (calibrate backlog start) = (calibrate backlog start)\<lparr>await := 0\<rparr>
   \<and> calibrate calm start = (setLimit (11 / 10) start)\<lparr>await := 1\<rparr>
   \<and> calibrate halfErrors start = start\<lparr>errors := 50, multiplier := 1 / 12, await := 3\<rparr>
   \<and> calibrate calm (calibrate calm (calibrate calm (calibrate halfErrors start)))
       = (calibrate halfErrors start)\<lparr>await := 0\<rparr>"
proof -
  have ev: "evaluates start" and aw: "await start = 0" and pos: "0 < multiplier start"
    by (simp_all add: evaluates_def start_def)
  have b: "errors start \<le> metrics_Errors backlog" "0 \<le> client_Amount backlog"
    and k: "errors start \<le> metrics_Errors calm" "0 \<le> client_Amount calm"
    and h: "errors start \<le> metrics_Errors halfErrors" "0 \<le> client_Amount halfErrors"
    by (simp_all add: start_def backlog_def calm_def halfErrors_def)
  have mu: "multiplier start = 1 / 10" and th: "throttle start = 1" and er: "errors start = 0"
    by (simp_all add: start_def)
  have vb: "metrics_Errors backlog = 0" "client_Overflow backlog = 3" "client_Amount backlog = 25"
    and vk: "metrics_Errors calm = 0" "client_Overflow calm = 0"
    and vh: "metrics_Errors halfErrors = 50"
    by (simp_all add: backlog_def calm_def halfErrors_def)
  note B = calibrate_evaluation_tick[OF ev aw pos b, of calm calm calm]
  note K = calibrate_evaluation_tick[OF ev aw pos k, of calm calm calm]
  note H = calibrate_evaluation_tick[OF ev aw pos h, of calm calm calm]
  have leb: "metrics_Errors backlog \<le> errors start" and lth: "errors start < metrics_Errors halfErrors"
    and big: "\<not> \<bar>multiplier start / 1.2\<bar> < 0.0001"
    by (simp_all add: er vb vh mu)
  have c1: "calibrate backlog start = (emit (RunWorkers 2) start)\<lparr>await := 1\<rparr>"
    using B[THEN conjunct1] by (simp add: mu er vb)
  have c2: "calibrate calm (calibrate backlog start) = (calibrate backlog start)\<lparr>await := 0\<rparr>"
    using B[THEN conjunct2, THEN conjunct2, THEN conjunct1, rule_format, OF leb] by (rule conjunct2[THEN conjunct1])
  have c3: "calibrate calm start = (setLimit (11 / 10) start)\<lparr>await := 1\<rparr>"
    using K[THEN conjunct1] by (simp add: mu th er vk)
  have c4: "calibrate halfErrors start = start\<lparr>errors := 50, multiplier := 1 / 12, await := 3\<rparr>"
    using H[THEN conjunct1] by (simp add: mu er vh)
  have c5: "calibrate calm (calibrate calm (calibrate calm (calibrate halfErrors start)))
       = (calibrate halfErrors start)\<lparr>await := 0\<rparr>"
    using H[THEN conjunct2, THEN conjunct2, THEN conjunct2, rule_format, OF lth,
        THEN conjunct2, THEN conjunct2, THEN conjunct2, rule_format, OF big]
    by (rule conjunct1)
  show ?thesis
    using ev aw pos b k h c1 c2 c3 c4 c5 by blast
qed

subsection \<open>The stored error count\<close>









subsection \<open>The multiplier\<close>




















subsection \<open>The calibrate phase, tick by tick\<close>









lemma climbing: "sorted_wrt (<) (0 # map of_nat [1..<38] :: u64 list)"
  by code_simp

lemma last_climb: "last (0 # map of_nat [1..<38] :: u64 list) = 37"
  by code_simp

lemma pow37: "\<not> (1 / 10) / 1.2 ^ 37 < (0.0001::real)"
  by (simp add: power_divide)

lemma pow38: "\<bar>(1 / 10) / 1.2 ^ 37 / 1.2\<bar> < (0.0001::real)"
  by (simp add: power_divide)

text \<open>The deadline of the calibrate phase stores the limit and the worker count.\<close>

lemma deadline_stores_cfg:
  assumes "\<not> stopCh s"
  shows "map_sum id cfg (load calibrateWatch (Timeout m # es) s)
     = Inr \<lparr>qps = throttle s, c = client_Amount m\<rparr>"
proof -
  have "stopCh (calibrateWatch (Timeout m) s)"
    by (simp add: calibrateWatch_def sendStop_def emit_def Let_def)
  then have "load calibrateWatch es (calibrateWatch (Timeout m) s)
      = Inr (emit Flush ((calibrateWatch (Timeout m) s)\<lparr>stopCh := False\<rparr>))"
    by (cases es) simp_all
  then show ?thesis
    using assms by (simp add: calibrateWatch_def sendStop_def emit_def Let_def)
qed


subsection \<open>The ramp of the load phase\<close>

lemma stepPeriod_short: "stepPeriod (10 * Second) = 0"
  by (simp add: stepPeriod_def Seconds_def Second_def Millisecond_def goInt_def)

lemma stepPeriod_30: "stepPeriod (30 * Second) = 1 * Second"
  by (simp add: stepPeriod_def Seconds_def Second_def Millisecond_def goInt_def)

text \<open>
  C3, at a failing input. For \<^verbatim>\<open>-d 10s\<close> the period handed to \<^verbatim>\<open>time.Tick\<close> is 0, no
  step tick ever fires, and the load phase ends with the limit at \<open>qps / 10 = 10\<close> where it
  began, after one \<^verbatim>\<open>RunWorkers\<close>. For \<^verbatim>\<open>-d 30s\<close> the period is one second, not the
  1.5 seconds of \<open>T_load / 20\<close>.
\<close>

theorem short_load_never_ramps:
  "stepPeriod (flag_d shortLoad) = 0
   \<and> map_sum id (\<lambda>s. (throttle s, calls s))
        (makeLoad shortLoad [Wait None, Tick calm, Wait None, Timeout calm] afterBurst)
       = Inr (10, [SetLimit 10, RunWorkers 1, Job, Job, PrintSummary ''Loading test'', Flush])
   \<and> stepPeriod (30 * Second) = Second
   \<and> 30 * Second div 20 = 1500 * Millisecond"
  by (simp add: shortLoad_def stepPeriod_short stepPeriod_30 makeLoad_def makeLoadWatch_def
      afterBurst_def start_def setLimit_def emit_def sendStop_def driveOnce_def quo_def
      printState_def Let_def)
    (simp add: Second_def Millisecond_def)

text \<open>Whatever the events, a load phase without a step period ends at \<open>qps / 10\<close>.\<close>

lemma makeLoad_no_ramp:
  assumes "makeLoad fl es s = Inr t" and "stepPeriod (flag_d fl) \<le> 0"
  shows "throttle t = qps (cfg s) / 10"
proof -
  let ?P = "\<lambda>u. throttle u = qps (cfg s) / 10"
  have nl: "(0 < stepPeriod (flag_d fl)) = False" using assms(2) by simp
  have "\<exists>u. ?P u \<and> stopCh u \<and> t = emit Flush (u\<lparr>stopCh := False\<rparr>)"
  proof (rule load_invariant[OF assms(1)[unfolded makeLoad_def Let_def nl]])
    show "?P (emit (RunWorkers (quo (c (cfg s)) 10)) (setLimit (qps (cfg s) / 10) s)\<lparr>steps := 0\<rparr>)"
      by (simp add: emit_def setLimit_def)
    show "?P (makeLoadWatch False (quo (c (cfg s)) 10) (qps (cfg s) / 10) e u)" if "?P u" for e u
      using that by (cases e) (simp_all add: makeLoadWatch_def sendStop_def emit_def printState_def Let_def)
    show "?P (driveOnce r u)" if "?P u" for r u
      using that by (simp add: driveOnce_def emit_def Let_def split: option.split)
  qed
  then show ?thesis by (auto simp: emit_def)
qed

text \<open>
  When step ticks do fire, the limit is \<open>qps / 10\<close> times one more than their number, up
  to nine step ticks: ten levels, the last one \<open>qps\<close>, and later step ticks change nothing.
\<close>

lemma stepTicks_ramp:
  assumes "steps s = 0" and "throttle s = q"
  shows "throttle ((makeLoadWatch True w q StepTick ^^ n) s) = q * (1 + real (min n 9))
     \<and> steps ((makeLoadWatch True w q StepTick ^^ n) s) = int (min n 9)"
proof (induction n)
  case 0
  show ?case using assms by simp
next
  case (Suc n)
  show ?case
  proof (cases "n < 9")
    case True
    then have m: "min n 9 = n" "min (Suc n) 9 = Suc n" by simp_all
    show ?thesis
      using Suc True unfolding m
      by (simp add: makeLoadWatch_def setLimit_def emit_def Let_def algebra_simps)
  next
    case False
    then have m: "min n 9 = 9" "min (Suc n) 9 = 9" by simp_all
    show ?thesis
      using Suc unfolding m
      by (simp add: makeLoadWatch_def)
  qed
qed

subsection \<open>The phases that run\<close>



lemma says_calls_eq: "calls v = calls u \<Longrightarrow> says L pre v = says L pre u"
  by (simp add: says_def)

lemma says_start: "says {[]} (calls s) s"
  by (simp add: says_def)













end
